theory Spec2Isabelle
  imports Main "HOL-Library.AList"
begin

section \<open>Data model\<close>

text \<open>
  The program is a PyQt front-end (\<^verbatim>\<open>turdus_m3rula_gui.py\<close>).  The theory embeds its
  orchestration core: \<^verbatim>\<open>ProjectState\<close>, \<^verbatim>\<open>ProcessRunner\<close>, \<^verbatim>\<open>StepManager\<close> and the
  orchestration methods of \<^verbatim>\<open>MainWindow\<close>.  Python attributes that hold \<^verbatim>\<open>None\<close> or a
  \<^verbatim>\<open>str\<close> are \<open>string option\<close>; an exception is a value \<open>Inl e\<close> of a sum type.
\<close>

datatype py_error =
    IndexError
  | TypeError
  | FileExistsError
  | FileNotFoundError
  | IsADirectoryError
  | JSONDecodeError
  | ShutilError

datatype step_status = PENDING | RUNNING | SUCCESS | FAILED

text \<open>The ten step behaviours, the bound methods handed to \<^verbatim>\<open>Step(name, func)\<close>.\<close>

datatype step_func =
    step_a9_teth_get_shc_pre
  | step_a9_teth_restore
  | step_a9_teth_get_shc_post
  | step_a9_teth_get_pte
  | step_a9_teth_boot
  | step_a10_teth_restore
  | step_a10_teth_boot
  | step_a9_unteth_get_shc
  | step_a9_unteth_restore
  | step_a10_unteth_restore

text \<open>The closures \<^verbatim>\<open>on_complete\<close>, named after the step behaviour that defines them.\<close>

datatype callback =
    on_complete_a9_teth_get_shc_pre
  | on_complete_a9_teth_restore
  | on_complete_a9_teth_get_shc_post
  | on_complete_a9_teth_get_pte
  | on_complete_a10_teth_restore
  | on_complete_a9_unteth_get_shc
  | on_complete_a9_unteth_restore
  | on_complete_a10_unteth_restore

record step =
  name :: string
  func :: step_func
  status :: step_status

definition Step :: "string \<Rightarrow> step_func \<Rightarrow> step" where
  "Step n f = \<lparr>name = n, func = f, status = PENDING\<rparr>"

text \<open>
  \<^verbatim>\<open>StepButton\<close>: the icon stands for the first character of the button text
  (circle, pause, check, cross, arrow); \<open>enabled\<close> is the widget's enabled flag.
\<close>

datatype icon = Circle | Pause | Check | Cross | Arrow

record step_button =
  step_num :: nat
  btn_name :: string
  is_next :: bool
  btn_icon :: icon
  enabled :: bool

definition StepButton :: "nat \<Rightarrow> string \<Rightarrow> step_button" where
  "StepButton n nm =
     \<lparr>step_num = n, btn_name = nm, is_next = False, btn_icon = Circle, enabled = True\<rparr>"

definition icons :: "step_status \<Rightarrow> icon" where
  "icons s = (case s of PENDING \<Rightarrow> Circle | RUNNING \<Rightarrow> Pause
                      | SUCCESS \<Rightarrow> Check | FAILED \<Rightarrow> Cross)"

definition update_status :: "step_status \<Rightarrow> bool \<Rightarrow> step_button \<Rightarrow> step_button" where
  "update_status st nxt b =
     b\<lparr>is_next := nxt,
       btn_icon := (if nxt \<and> st = PENDING then Arrow else icons st)\<rparr>"

subsection \<open>The project directory\<close>

text \<open>
  Every file operation of the program is relative to \<^verbatim>\<open>state.root_dir\<close>; \<open>filesys\<close> is
  the content of that directory.  A node is a regular file (modification time, content)
  or a directory (modification time, entries in listing order).  File content is either
  a JSON object whose values are strings or \<^verbatim>\<open>null\<close> (what \<^verbatim>\<open>json.dumps\<close> writes for
  \<^verbatim>\<open>project.json\<close> and \<^verbatim>\<open>json.loads\<close> reads back), or anything else (\<open>Opaque\<close>).
  \<open>clock\<close> is the time the next modification is stamped with.
\<close>

datatype fdata = Opaque | JsonDoc "(string \<times> string option) list"

datatype node = File nat fdata | Dir nat "(string \<times> node) list"

type_synonym dir = "(string \<times> node) list"

record filesys =
  entries :: dir
  clock :: nat

fun st_mtime :: "node \<Rightarrow> nat" where
  "st_mtime (File t _) = t"
| "st_mtime (Dir t _) = t"

fun node_is_file :: "node option \<Rightarrow> bool" where
  "node_is_file (Some (File _ _)) = True"
| "node_is_file _ = False"

fun node_is_dir :: "node option \<Rightarrow> bool" where
  "node_is_dir (Some (Dir _ _)) = True"
| "node_is_dir _ = False"

definition lookup :: "filesys \<Rightarrow> string \<Rightarrow> node option" where
  "lookup fs n = map_of (entries fs) n"

definition path_exists :: "filesys \<Rightarrow> string \<Rightarrow> bool" where
  "path_exists fs n = (lookup fs n \<noteq> None)"

text \<open>
  \<^verbatim>\<open>fnmatch\<close> for the patterns the program uses: \<^verbatim>\<open>*\<close> matches any run of
  characters (\<^verbatim>\<open>Path.glob\<close> does not treat a leading dot specially), every other
  character matches itself.
\<close>

fun fnmatch :: "string \<Rightarrow> string \<Rightarrow> bool" where
  "fnmatch [] s = (s = [])"
| "fnmatch (p # ps) [] = (p = CHR ''*'' \<and> fnmatch ps [])"
| "fnmatch (p # ps) (c # cs) =
     (if p = CHR ''*'' then fnmatch ps (c # cs) \<or> fnmatch (p # ps) cs
      else p = c \<and> fnmatch ps cs)"

definition glob :: "filesys \<Rightarrow> string \<Rightarrow> string list" where
  "glob fs pat = filter (fnmatch pat) (map fst (entries fs))"

subsection \<open>ProjectState, ProcessRunner, MainWindow\<close>

record project_state =
  root_dir :: "string option"
  ipsw :: "string option"
  blob :: "string option"
  gen :: "string option"
  chip :: "string option"

text \<open>
  What the runner does to the outside: the processes it starts and the signals it
  emits, in order.
\<close>

datatype event =
    Process_start string
  | Output_received string string
  | Process_finished bool int
  | Command_chain_finished bool

text \<open>
  \<open>chain_conns\<close> counts the connections of \<^verbatim>\<open>process_finished\<close> to
  \<^verbatim>\<open>_on_chain_step_finished\<close>; \<open>pending_timers\<close> counts the \<^verbatim>\<open>QTimer.singleShot\<close>
  callbacks not yet fired.
\<close>

record process_runner =
  is_running :: bool
  command_queue :: "string list"
  chain_conns :: nat
  pending_timers :: nat
  emitted :: "event list"

text \<open>
  The main window after \<^verbatim>\<open>__init__\<close>.  \<open>notices\<close> are the blocking
  \<^verbatim>\<open>QMessageBox.warning\<close> dialogs (title, text), \<open>sys_log\<close> the lines of \<^verbatim>\<open>log_system\<close>
  without their time stamp, \<open>config_ROOT\<close> the directory of the script (\<^verbatim>\<open>Config.ROOT\<close>).
\<close>

record window =
  state :: project_state
  runner :: process_runner
  steps :: "step list"
  current_step :: int
  step_buttons :: "step_button list"
  current_mode :: string
  is_executing :: bool
  current_step_callback :: "callback option"
  fs :: filesys
  notices :: "(string \<times> string) list"
  sys_log :: "string list"
  config_ROOT :: string

section \<open>Step definition table\<close>

text \<open>Python truth value of an optional string: \<^verbatim>\<open>None\<close> and \<^verbatim>\<open>""\<close> are false.\<close>

fun truthy :: "string option \<Rightarrow> bool" where
  "truthy None = False"
| "truthy (Some s) = (s \<noteq> [])"

definition update_step_buttons_state :: "window \<Rightarrow> window" where
  "update_step_buttons_state w =
     (let en = (if current_mode w = ''teth'' then truthy (ipsw (state w))
                else truthy (ipsw (state w)) \<and> truthy (blob (state w))
                     \<and> truthy (gen (state w)))
      in w\<lparr>step_buttons := map (\<lambda>b. b\<lparr>enabled := en\<rparr>) (step_buttons w)\<rparr>)"

definition step_table :: "string \<Rightarrow> string option \<Rightarrow> step list" where
  "step_table mode c =
     (if mode = ''teth'' then
        (if c = Some ''A9'' then
           [Step ''Get SHC (pre)'' step_a9_teth_get_shc_pre,
            Step ''Restore Device'' step_a9_teth_restore,
            Step ''Get SHC (post)'' step_a9_teth_get_shc_post,
            Step ''Get pteblock'' step_a9_teth_get_pte,
            Step ''Boot Device'' step_a9_teth_boot]
         else
           [Step ''Restore Device'' step_a10_teth_restore,
            Step ''Boot Device'' step_a10_teth_boot])
      else
        (if c = Some ''A9'' then
           [Step ''Get SHC Block'' step_a9_unteth_get_shc,
            Step ''Untethered Restore'' step_a9_unteth_restore]
         else
           [Step ''Untethered Restore'' step_a10_unteth_restore]))"

text \<open>\<^verbatim>\<open>StepManager.set_steps\<close>.\<close>

definition set_steps :: "step list \<Rightarrow> window \<Rightarrow> window" where
  "set_steps ss w =
     w\<lparr>steps := map (\<lambda>s. s\<lparr>status := PENDING\<rparr>) ss, current_step := - 1\<rparr>"

text \<open>
  \<^verbatim>\<open>MainWindow.load_steps\<close>: the branch on mode and chip is \<open>step_table\<close>; the buttons
  are numbered from 1.
\<close>

definition load_steps :: "window \<Rightarrow> window" where
  "load_steps w =
     (let ss = step_table (current_mode w) (chip (state w));
          w1 = set_steps ss w;
          w2 = w1\<lparr>step_buttons :=
                    map (\<lambda>(i, s). StepButton (i + 1) (name s)) (enumerate 0 ss)\<rparr>
      in update_step_buttons_state w2)"

section \<open>Progress detection\<close>




section \<open>File operations\<close>

text \<open>
  \<^verbatim>\<open>Path.mkdir(exist_ok=True)\<close>: an existing directory is left alone, an existing
  regular file raises.
\<close>

definition mkdir_exist_ok :: "string \<Rightarrow> filesys \<Rightarrow> py_error + filesys" where
  "mkdir_exist_ok n f =
     (case lookup f n of
        None \<Rightarrow> Inr (f\<lparr>entries := entries f @ [(n, Dir (clock f) [])],
                       clock := Suc (clock f)\<rparr>)
      | Some (Dir _ _) \<Rightarrow> Inr f
      | Some (File _ _) \<Rightarrow> Inl FileExistsError)"

text \<open>\<^verbatim>\<open>Path.write_text\<close>: creates or replaces a regular file.\<close>

definition write_text :: "string \<Rightarrow> fdata \<Rightarrow> filesys \<Rightarrow> py_error + filesys" where
  "write_text n d f =
     (case lookup f n of
        Some (Dir _ _) \<Rightarrow> Inl IsADirectoryError
      | _ \<Rightarrow> Inr (f\<lparr>entries := AList.update n (File (clock f) d) (entries f),
                    clock := Suc (clock f)\<rparr>))"

text \<open>
  \<^verbatim>\<open>Path.touch()\<close>: an existing node only gets a new modification time, otherwise an
  empty file is created.
\<close>

definition touch :: "string \<Rightarrow> filesys \<Rightarrow> filesys" where
  "touch n f =
     (let nd = (case lookup f n of
                  None \<Rightarrow> File (clock f) Opaque
                | Some (File _ d) \<Rightarrow> File (clock f) d
                | Some (Dir _ es) \<Rightarrow> Dir (clock f) es)
      in f\<lparr>entries := AList.update n nd (entries f), clock := Suc (clock f)\<rparr>)"

text \<open>
  \<^verbatim>\<open>shutil.move(str(latest), str(target))\<close> inside the project directory when \<open>target\<close>
  does not exist and \<open>latest\<close> is an entry of the listing just taken: a rename, the
  node keeps its modification time.
\<close>

definition rename_entry :: "string \<times> node \<Rightarrow> string \<Rightarrow> filesys \<Rightarrow> filesys" where
  "rename_entry latest target f =
     f\<lparr>entries := AList.update target (snd latest) (AList.delete (fst latest) (entries f)),
       clock := Suc (clock f)\<rparr>"





text \<open>\<^verbatim>\<open>str.startswith\<close>.\<close>

definition startswith :: "string \<Rightarrow> string \<Rightarrow> bool" where
  "startswith s p = (take (length p) s = p)"



text \<open>
  \<^verbatim>\<open>list(root_dir.glob(pat))\<close> with the nodes, and \<^verbatim>\<open>max(blocks, key=lambda p:
  p.stat().st_mtime)\<close>: the first entry of the greatest modification time.
\<close>

definition glob_entries :: "filesys \<Rightarrow> string \<Rightarrow> (string \<times> node) list" where
  "glob_entries f pat = filter (\<lambda>(n, nd). fnmatch pat n) (entries f)"

fun max_mtime :: "(string \<times> node) \<Rightarrow> (string \<times> node) list \<Rightarrow> (string \<times> node)" where
  "max_mtime best [] = best"
| "max_mtime best (x # xs) =
     max_mtime (if st_mtime (snd best) < st_mtime (snd x) then x else best) xs"

section \<open>ProjectState persistence\<close>

text \<open>
  \<^verbatim>\<open>ProjectState.save\<close>: \<^verbatim>\<open>str(x) if x else None\<close> for \<^verbatim>\<open>ipsw\<close> and \<^verbatim>\<open>blob\<close>, the
  other two fields as they are.
\<close>

definition save :: "project_state \<Rightarrow> filesys \<Rightarrow> py_error + filesys" where
  "save s f =
     (case root_dir s of
        None \<Rightarrow> Inr f
      | Some _ \<Rightarrow>
          write_text ''project.json''
            (JsonDoc [(''ipsw'', if truthy (ipsw s) then ipsw s else None),
                      (''blob'', if truthy (blob s) then blob s else None),
                      (''gen'', gen s),
                      (''chip'', chip s)]) f)"

text \<open>\<^verbatim>\<open>dict.get(key)\<close> and \<^verbatim>\<open>dict.get(key, default)\<close> on the loaded object.\<close>

definition dict_get :: "(string \<times> string option) list \<Rightarrow> string \<Rightarrow> string option" where
  "dict_get d k = (case map_of d k of None \<Rightarrow> None | Some v \<Rightarrow> v)"

definition dict_get_default ::
  "(string \<times> string option) list \<Rightarrow> string \<Rightarrow> string option \<Rightarrow> string option" where
  "dict_get_default d k dflt = (case map_of d k of None \<Rightarrow> dflt | Some v \<Rightarrow> v)"

text \<open>
  \<^verbatim>\<open>ProjectState.load(root_dir)\<close>; \<open>f\<close> is the content of the directory \<open>d\<close>.  Reading a
  file that is not a JSON document raises, a missing file is created with the defaults.
\<close>

definition load ::
  "string \<Rightarrow> project_state \<Rightarrow> filesys \<Rightarrow> py_error + (project_state \<times> filesys)" where
  "load d s f =
     (let s1 = s\<lparr>root_dir := Some d\<rparr> in
      case lookup f ''project.json'' of
        Some (File _ (JsonDoc data)) \<Rightarrow>
          Inr (s1\<lparr>ipsw := dict_get data ''ipsw'',
                  blob := dict_get data ''blob'',
                  gen := dict_get data ''gen'',
                  chip := dict_get_default data ''chip'' (Some ''A9'')\<rparr>, f)
      | Some (File _ Opaque) \<Rightarrow> Inl JSONDecodeError
      | Some (Dir _ _) \<Rightarrow> Inl IsADirectoryError
      | None \<Rightarrow>
          (let s2 = s1\<lparr>ipsw := None, blob := None, gen := None, chip := Some ''A9''\<rparr> in
           case save s2 f of
             Inl e \<Rightarrow> Inl e
           | Inr f' \<Rightarrow> Inr (s2, f')))"

section \<open>Generator extraction\<close>






fun contains :: "string \<Rightarrow> string \<Rightarrow> bool" where
  "contains pat [] = (pat = [])"
| "contains pat (c # cs) = (startswith (c # cs) pat \<or> contains pat cs)"








text \<open>
  The command line.  Between single quotes the shell takes every character as it is,
  so a path is handed to \<^verbatim>\<open>cat\<close> as one word unless it has a single quote itself;
  \<^verbatim>\<open>cat\<close> takes the word for a file operand unless it starts with a dash.
\<close>

definition quote :: char where
  "quote = CHR 0x27"


definition operand :: "string \<Rightarrow> bool" where
  "operand blob_path \<longleftrightarrow> quote \<notin> set blob_path \<and> \<not> startswith blob_path ''-''"




section \<open>Process runner\<close>

text \<open>
  \<^verbatim>\<open>ProcessRunner.run\<close>: the returned flag and the runner afterwards.  Starting the
  \<^verbatim>\<open>QProcess\<close> is the event \<open>Process_start\<close>.
\<close>

definition run :: "string \<Rightarrow> process_runner \<Rightarrow> bool \<times> process_runner" where
  "run command r =
     (if is_running r then (False, r)
      else (True, r\<lparr>is_running := True,
                    emitted := emitted r @ [Output_received ''CMD'' (''$ '' @ command),
                                            Process_start command]\<rparr>))"

text \<open>
  \<^verbatim>\<open>ProcessRunner.run_chain\<close>: the queue is replaced, the handler is connected once
  more, and the first command is popped and handed to \<open>run\<close>, whose result is dropped.
\<close>

definition run_chain :: "string list \<Rightarrow> process_runner \<Rightarrow> process_runner" where
  "run_chain commands r =
     (let r1 = r\<lparr>command_queue := commands, chain_conns := Suc (chain_conns r)\<rparr>
      in case command_queue r1 of
           [] \<Rightarrow> r1
         | c # cs \<Rightarrow> snd (run c (r1\<lparr>command_queue := cs\<rparr>)))"

text \<open>
  \<^verbatim>\<open>ProcessRunner._on_chain_step_finished\<close>.  It runs only through a live connection,
  so \<open>chain_conns\<close> is positive where it disconnects.
\<close>

definition on_chain_step_finished :: "bool \<Rightarrow> int \<Rightarrow> process_runner \<Rightarrow> process_runner" where
  "on_chain_step_finished success exit_code r =
     (if \<not> success then
        r\<lparr>command_queue := [], chain_conns := chain_conns r - 1,
          emitted := emitted r @ [Command_chain_finished False]\<rparr>
      else if command_queue r \<noteq> [] then
        r\<lparr>pending_timers := Suc (pending_timers r)\<rparr>
      else
        r\<lparr>chain_conns := chain_conns r - 1,
          emitted := emitted r @ [Command_chain_finished True]\<rparr>)"

text \<open>
  \<^verbatim>\<open>ProcessRunner._on_finished\<close>, the slot of \<^verbatim>\<open>QProcess.finished\<close>.  Emitting
  \<^verbatim>\<open>process_finished\<close> calls the chain handler once for each connection present when
  the emission starts, oldest first, skipping a connection that has been removed in
  the meantime (\<^verbatim>\<open>disconnect\<close> removes the most recent one).  Slots of other objects
  are not part of the runner.
\<close>

definition on_finished :: "int \<Rightarrow> process_runner \<Rightarrow> process_runner" where
  "on_finished exit_code r =
     (let success = (exit_code = 0);
          r1 = r\<lparr>is_running := False,
                  emitted := emitted r @ [Process_finished success exit_code]\<rparr>
      in fold (\<lambda>i r'. if i < chain_conns r'
                       then on_chain_step_finished success exit_code r' else r')
           [0 ..< chain_conns r1] r1)"

text \<open>
  The callback of \<^verbatim>\<open>QTimer.singleShot(100, lambda: self.run(self.command_queue.pop(0)))\<close>:
  \<^verbatim>\<open>pop(0)\<close> raises on an empty queue.
\<close>

definition timer_shot :: "process_runner \<Rightarrow> py_error + process_runner" where
  "timer_shot r =
     (case command_queue r of
        [] \<Rightarrow> Inl IndexError
      | c # cs \<Rightarrow>
          Inr (snd (run c (r\<lparr>command_queue := cs,
                              pending_timers := pending_timers r - 1\<rparr>))))"

text \<open>
  What the event loop delivers to the runner: the exit of the running process with its
  exit code, or the expiry of a pending timer.  \<open>env_step\<close> is \<open>None\<close> when the event
  cannot happen in the state; after an uncaught exception nothing more happens.
\<close>

datatype env_event = Exit int | Timer_shot

definition env_step :: "env_event \<Rightarrow> process_runner \<Rightarrow> (py_error + process_runner) option" where
  "env_step e r =
     (case e of
        Exit exit_code \<Rightarrow> if is_running r then Some (Inr (on_finished exit_code r)) else None
      | Timer_shot \<Rightarrow> if 0 < pending_timers r then Some (timer_shot r) else None)"

fun run_events :: "env_event list \<Rightarrow> process_runner \<Rightarrow> (py_error + process_runner) option" where
  "run_events [] r = Some (Inr r)"
| "run_events (e # es) r =
     (case env_step e r of
        None \<Rightarrow> None
      | Some (Inl x) \<Rightarrow> (if es = [] then Some (Inl x) else None)
      | Some (Inr r') \<Rightarrow> run_events es r')"

text \<open>The commands started and the exit codes observed, read off the trace.\<close>

fun started :: "event list \<Rightarrow> string list" where
  "started [] = []"
| "started (Process_start c # es) = c # started es"
| "started (_ # es) = started es"

fun exit_codes :: "event list \<Rightarrow> int list" where
  "exit_codes [] = []"
| "exit_codes (Process_finished _ k # es) = k # exit_codes es"
| "exit_codes (_ # es) = exit_codes es"

fun chain_results :: "event list \<Rightarrow> bool list" where
  "chain_results [] = []"
| "chain_results (Command_chain_finished b # es) = b # chain_results es"
| "chain_results (_ # es) = chain_results es"

section \<open>Orchestration\<close>

text \<open>
  The result of a method of the window: it returns (\<open>Ok\<close>), or it raises, and then
  \<open>Raised e w\<close> holds the exception and the window as the raise leaves it.
\<close>

datatype 'a outcome = Ok 'a | Raised py_error window

fun and_then :: "'a outcome \<Rightarrow> ('a \<Rightarrow> 'b outcome) \<Rightarrow> 'b outcome" where
  "and_then (Ok x) k = k x"
| "and_then (Raised e w) k = Raised e w"

definition log_system :: "string \<Rightarrow> window \<Rightarrow> window" where
  "log_system message w = w\<lparr>sys_log := sys_log w @ [message]\<rparr>"

text \<open>\<^verbatim>\<open>QMessageBox.warning(self, title, text)\<close>.\<close>

definition warning :: "string \<Rightarrow> string \<Rightarrow> window \<Rightarrow> window" where
  "warning title text w = w\<lparr>notices := notices w @ [(title, text)]\<rparr>"

text \<open>How an f-string prints a number, an optional string and an exception.\<close>

fun str_nat :: "nat \<Rightarrow> string" where
  "str_nat n =
     (if n < 10 then [char_of (48 + n)]
      else str_nat (n div 10) @ [char_of (48 + n mod 10)])"

fun fmt :: "string option \<Rightarrow> string" where
  "fmt None = ''None''"
| "fmt (Some s) = s"

fun exc_text :: "py_error \<Rightarrow> string" where
  "exc_text IndexError = ''list index out of range''"
| "exc_text TypeError = ''unsupported operand type(s)''"
| "exc_text FileExistsError = ''File exists''"
| "exc_text FileNotFoundError = ''No such file or directory''"
| "exc_text IsADirectoryError = ''Is a directory''"
| "exc_text JSONDecodeError = ''Expecting value''"
| "exc_text ShutilError = ''Destination path already exists''"

subsection \<open>Step manager and its status signal\<close>

fun first_pending :: "nat \<Rightarrow> step list \<Rightarrow> int" where
  "first_pending i [] = - 1"
| "first_pending i (s # ss) =
     (if status s = PENDING then int i else first_pending (Suc i) ss)"

text \<open>
  \<^verbatim>\<open>MainWindow.on_step_changed\<close>, the slot of \<^verbatim>\<open>step_changed\<close>.  Its loop over the
  buttons is \<open>render_buttons\<close>; \<^verbatim>\<open>steps[i]\<close> raises once \<open>i\<close> passes the end of the
  step list, and the buttons before that have been updated.
\<close>

definition render_buttons :: "step list \<Rightarrow> step_button list \<Rightarrow> step_button list" where
  "render_buttons ss bs =
     (let nxt = first_pending 0 ss
      in map (\<lambda>(i, b). if i < length ss
                        then update_status (status (ss ! i)) (int i = nxt) b
                        else b)
           (enumerate 0 bs))"

definition on_step_changed :: "window \<Rightarrow> window outcome" where
  "on_step_changed w =
     (let w' = w\<lparr>step_buttons := render_buttons (steps w) (step_buttons w)\<rparr>
      in if length (step_buttons w) \<le> length (steps w) then Ok w'
         else Raised IndexError w')"

text \<open>\<^verbatim>\<open>StepManager.start_step\<close> and \<^verbatim>\<open>StepManager.complete_step\<close>.\<close>

definition start_step :: "nat \<Rightarrow> window \<Rightarrow> window outcome" where
  "start_step index w =
     (if index < length (steps w) then
        on_step_changed
          (w\<lparr>current_step := int index,
             steps := (steps w)[index := (steps w ! index)\<lparr>status := RUNNING\<rparr>]\<rparr>)
      else Ok w)"

definition complete_step :: "int \<Rightarrow> bool \<Rightarrow> window \<Rightarrow> window outcome" where
  "complete_step index success w =
     (if 0 \<le> index \<and> index < int (length (steps w)) then
        on_step_changed
          (w\<lparr>steps := (steps w)[nat index :=
                 (steps w ! nat index)\<lparr>status := (if success then SUCCESS else FAILED)\<rparr>]\<rparr>)
      else Ok w)"

subsection \<open>Step behaviours\<close>

definition RAIN :: "window \<Rightarrow> string" where
  "RAIN w = config_ROOT w @ ''/turdusra1n''"

definition MERULA :: "window \<Rightarrow> string" where
  "MERULA w = config_ROOT w @ ''/turdus_merula''"

text \<open>\<^verbatim>\<open>str(root_dir / n)\<close>.\<close>

definition in_dir :: "string \<Rightarrow> string \<Rightarrow> string" where
  "in_dir d n = d @ ''/'' @ n"

text \<open>
  The block every behaviour runs on a missing precondition: the warning dialog,
  \<^verbatim>\<open>complete_step(current_step, False)\<close>, \<^verbatim>\<open>is_executing = False\<close>, return.
\<close>

definition missing :: "string \<Rightarrow> window \<Rightarrow> window outcome" where
  "missing text w =
     and_then (complete_step (current_step w) False (warning ''Missing'' text w))
       (\<lambda>w'. Ok (w'\<lparr>is_executing := False\<rparr>))"

text \<open>\<^verbatim>\<open>self.current_step_callback = on_complete; self.runner.run_chain(cmds)\<close>.\<close>

definition start_chain :: "callback \<Rightarrow> string list \<Rightarrow> window \<Rightarrow> window" where
  "start_chain cb cmds w =
     w\<lparr>current_step_callback := Some cb, runner := run_chain cmds (runner w)\<rparr>"

fun run_step :: "step_func \<Rightarrow> window \<Rightarrow> window outcome" where
  "run_step step_a9_teth_get_shc_pre w =
     (if \<not> truthy (ipsw (state w)) \<or> root_dir (state w) = None
      then missing ''Need IPSW and project'' w
      else
        (let d = fmt (root_dir (state w));
             cmd1 = RAIN w @ '' -D'';
             cmd2 = ''cd '' @ [CHR 0x27] @ d @ [CHR 0x27] @ '' && '' @ MERULA w
                    @ '' --get-shcblock '' @ [CHR 0x27] @ fmt (ipsw (state w)) @ [CHR 0x27]
         in Ok (start_chain on_complete_a9_teth_get_shc_pre [cmd1, cmd2] w)))"
| "run_step step_a9_teth_restore w =
     (if \<not> truthy (ipsw (state w)) \<or> root_dir (state w) = None
      then missing ''Need IPSW and project'' w
      else if \<not> path_exists (fs w) ''shcblock_pre.bin''
      then missing ''Need shcblock_pre.bin'' w
      else
        (let d = fmt (root_dir (state w));
             shc_pre = in_dir d ''shcblock_pre.bin'';
             cmd1 = RAIN w @ '' -D'';
             cmd2 = ''cd '' @ [CHR 0x27] @ d @ [CHR 0x27] @ '' && '' @ MERULA w
                    @ '' -o --load-shcblock '' @ [CHR 0x27] @ shc_pre @ [CHR 0x27]
                    @ '' '' @ [CHR 0x27] @ fmt (ipsw (state w)) @ [CHR 0x27]
         in Ok (start_chain on_complete_a9_teth_restore [cmd1, cmd2] w)))"
| "run_step step_a9_teth_get_shc_post w =
     (if root_dir (state w) = None
      then missing ''Need project'' w
      else
        (let d = fmt (root_dir (state w));
             cmd = ''cd '' @ [CHR 0x27] @ d @ [CHR 0x27] @ '' && '' @ RAIN w @ '' -g''
         in Ok (start_chain on_complete_a9_teth_get_shc_post [cmd] w)))"
| "run_step step_a9_teth_get_pte w =
     (if root_dir (state w) = None
      then missing ''Need project'' w
      else if \<not> path_exists (fs w) ''shcblock_post.bin''
      then missing ''Need shcblock_post.bin'' w
      else
        (case glob (fs w) ''*signed-SEP.img4'' of
           [] \<Rightarrow> missing ''No signed-SEP.img4 file in project directory'' w
         | sep # _ \<Rightarrow>
             (let d = fmt (root_dir (state w));
                  shc_post = in_dir d ''shcblock_post.bin'';
                  cmd = ''cd '' @ [CHR 0x27] @ d @ [CHR 0x27] @ '' && '' @ RAIN w
                        @ '' -g -i '' @ [CHR 0x27] @ in_dir d sep @ [CHR 0x27]
                        @ '' -C '' @ [CHR 0x27] @ shc_post @ [CHR 0x27]
              in Ok (start_chain on_complete_a9_teth_get_pte [cmd] w))))"
| "run_step step_a9_teth_boot w =
     (if root_dir (state w) = None
      then missing ''Need project'' w
      else if \<not> path_exists (fs w) ''pteblock.bin''
      then missing ''Need pteblock.bin'' w
      else
        (let d = fmt (root_dir (state w));
             pte = in_dir d ''pteblock.bin'';
             cmd = RAIN w @ '' -TP '' @ [CHR 0x27] @ pte @ [CHR 0x27]
         in Ok (w\<lparr>runner := run_chain [cmd] (runner w)\<rparr>)))"
| "run_step step_a10_teth_restore w =
     (if \<not> truthy (ipsw (state w)) \<or> root_dir (state w) = None
      then missing ''Need IPSW and project'' w
      else
        (let d = fmt (root_dir (state w));
             cmd1 = RAIN w @ '' -D'';
             cmd2 = ''cd '' @ [CHR 0x27] @ d @ [CHR 0x27] @ '' && '' @ MERULA w
                    @ '' -o '' @ [CHR 0x27] @ fmt (ipsw (state w)) @ [CHR 0x27]
         in Ok (start_chain on_complete_a10_teth_restore [cmd1, cmd2] w)))"
| "run_step step_a10_teth_boot w =
     (if root_dir (state w) = None
      then missing ''Need project'' w
      else
        (case (glob (fs w) ''*iBoot*.img4'', glob (fs w) ''*signed-SEP.img4'',
               glob (fs w) ''*target-SEP.im4p'') of
           (iboot # _, sep_signed # _, sep_target # _) \<Rightarrow>
             (let d = fmt (root_dir (state w));
                  cmd = RAIN w @ '' -t '' @ [CHR 0x27] @ in_dir d iboot @ [CHR 0x27]
                        @ '' -i '' @ [CHR 0x27] @ in_dir d sep_signed @ [CHR 0x27]
                        @ '' -p '' @ [CHR 0x27] @ in_dir d sep_target @ [CHR 0x27]
              in Ok (w\<lparr>runner := run_chain [cmd] (runner w)\<rparr>))
         | _ \<Rightarrow> missing ''Need iBoot.img4, signed-SEP.img4, target-SEP.im4p'' w))"
| "run_step step_a9_unteth_get_shc w =
     (if \<not> truthy (ipsw (state w)) \<or> root_dir (state w) = None
      then missing ''Need IPSW and project'' w
      else
        (let d = fmt (root_dir (state w));
             cmd1 = RAIN w @ '' -D'';
             cmd2 = ''cd '' @ [CHR 0x27] @ d @ [CHR 0x27] @ '' && '' @ MERULA w
                    @ '' --get-shcblock '' @ [CHR 0x27] @ fmt (ipsw (state w)) @ [CHR 0x27]
         in Ok (start_chain on_complete_a9_unteth_get_shc [cmd1, cmd2] w)))"
| "run_step step_a9_unteth_restore w =
     (if \<not> truthy (ipsw (state w)) \<or> \<not> truthy (blob (state w))
         \<or> \<not> truthy (gen (state w)) \<or> root_dir (state w) = None
      then missing ''Need IPSW/Blob/Gen/Project'' w
      else if \<not> path_exists (fs w) ''shcblock_unteth.bin''
      then missing ''Need shcblock_unteth.bin'' w
      else
        (let w1 = log_system ''Note: A9 may fail, retry if needed'' w;
             d = fmt (root_dir (state w));
             shc_block = in_dir d ''shcblock_unteth.bin'';
             cmd1 = RAIN w @ '' -Db '' @ fmt (gen (state w));
             cmd2 = ''cd '' @ [CHR 0x27] @ d @ [CHR 0x27] @ '' && '' @ MERULA w
                    @ '' -w --load-shsh '' @ [CHR 0x27] @ fmt (blob (state w)) @ [CHR 0x27]
                    @ '' --load-shcblock '' @ [CHR 0x27] @ shc_block @ [CHR 0x27]
                    @ '' '' @ [CHR 0x27] @ fmt (ipsw (state w)) @ [CHR 0x27]
         in Ok (start_chain on_complete_a9_unteth_restore [cmd1, cmd2] w1)))"
| "run_step step_a10_unteth_restore w =
     (if \<not> truthy (ipsw (state w)) \<or> \<not> truthy (blob (state w))
         \<or> \<not> truthy (gen (state w)) \<or> root_dir (state w) = None
      then missing ''Need IPSW/Blob/Gen/Project'' w
      else
        (let d = fmt (root_dir (state w));
             cmd1 = RAIN w @ '' -Db '' @ fmt (gen (state w));
             cmd2 = ''cd '' @ [CHR 0x27] @ d @ [CHR 0x27] @ '' && '' @ MERULA w
                    @ '' -w --load-shsh '' @ [CHR 0x27] @ fmt (blob (state w)) @ [CHR 0x27]
                    @ '' '' @ [CHR 0x27] @ fmt (ipsw (state w)) @ [CHR 0x27]
         in Ok (start_chain on_complete_a10_unteth_restore [cmd1, cmd2] w)))"

subsection \<open>Chain-completion callbacks\<close>

text \<open>
  The artifact resolution shared by the \<^verbatim>\<open>on_complete\<close> closures of the steps that
  fetch a block, in their \<^verbatim>\<open>if success:\<close> branch: \<open>target\<close> is the canonical name,
  \<open>excluded\<close> the names filtered out of \<^verbatim>\<open>glob("*.bin")\<close>, \<open>err\<close> the line logged when
  nothing is found.  \<^verbatim>\<open>root_dir / name\<close> raises when there is no project.
\<close>

definition resolve_artifact ::
  "string \<Rightarrow> string list \<Rightarrow> string \<Rightarrow> window \<Rightarrow> (bool \<times> window) outcome" where
  "resolve_artifact target excluded err w =
     (case root_dir (state w) of
        None \<Rightarrow> Raised TypeError w
      | Some _ \<Rightarrow>
          (if path_exists (fs w) target
           then Ok (True, log_system (''Saved: '' @ target) w)
           else
             (case filter (\<lambda>(n, nd). n \<notin> set excluded) (glob_entries (fs w) ''*.bin'') of
                [] \<Rightarrow> Ok (False, log_system err w)
              | b # bs \<Rightarrow>
                  (let latest = max_mtime b bs
                   in Ok (True,
                          log_system (''Renamed '' @ fst latest @ '' to '' @ target)
                            (w\<lparr>fs := rename_entry latest target (fs w)\<rparr>))))))"

text \<open>The \<^verbatim>\<open>if success:\<close> branch of the closures of the restore steps.\<close>

definition touch_restore_done :: "window \<Rightarrow> (bool \<times> window) outcome" where
  "touch_restore_done w =
     (case root_dir (state w) of
        None \<Rightarrow> Raised TypeError w
      | Some _ \<Rightarrow> Ok (True, w\<lparr>fs := touch ''restore_done'' (fs w)\<rparr>))"

fun on_complete :: "callback \<Rightarrow> bool \<Rightarrow> window \<Rightarrow> (bool \<times> window) outcome" where
  "on_complete on_complete_a9_teth_get_shc_pre success w =
     (if success
      then resolve_artifact ''shcblock_pre.bin'' [] ''Error: No .bin file found'' w
      else Ok (success, w))"
| "on_complete on_complete_a9_teth_restore success w =
     (if success then touch_restore_done w else Ok (success, w))"
| "on_complete on_complete_a9_teth_get_shc_post success w =
     (if success
      then resolve_artifact ''shcblock_post.bin'' [''shcblock_pre.bin'', ''shcblock_post.bin'']
             ''Error: No new .bin file found'' w
      else Ok (success, w))"
| "on_complete on_complete_a9_teth_get_pte success w =
     (if success
      then resolve_artifact ''pteblock.bin''
             [''shcblock_pre.bin'', ''shcblock_post.bin'', ''pteblock.bin'']
             ''Error: No new .bin file found'' w
      else Ok (success, w))"
| "on_complete on_complete_a10_teth_restore success w =
     (if success then touch_restore_done w else Ok (success, w))"
| "on_complete on_complete_a9_unteth_get_shc success w =
     (if success
      then resolve_artifact ''shcblock_unteth.bin'' [] ''Error: No .bin file found'' w
      else Ok (success, w))"
| "on_complete on_complete_a9_unteth_restore success w =
     (if success then touch_restore_done w else Ok (success, w))"
| "on_complete on_complete_a10_unteth_restore success w =
     (if success then touch_restore_done w else Ok (success, w))"

subsection \<open>Executing a step and finishing a chain\<close>

text \<open>The two \<^verbatim>\<open>mkdir(exist_ok=True)\<close> calls of \<^verbatim>\<open>execute_step\<close>.\<close>

definition make_work_dirs :: "window \<Rightarrow> window outcome" where
  "make_work_dirs w =
     (case root_dir (state w) of
        None \<Rightarrow> Ok w
      | Some _ \<Rightarrow>
          (case mkdir_exist_ok ''block'' (fs w) of
             Inl e \<Rightarrow> Raised e w
           | Inr f1 \<Rightarrow>
               (case mkdir_exist_ok ''image4'' f1 of
                  Inl e \<Rightarrow> Raised e (w\<lparr>fs := f1\<rparr>)
                | Inr f2 \<Rightarrow> Ok (w\<lparr>fs := f2\<rparr>))))"

text \<open>
  \<^verbatim>\<open>MainWindow.execute_step\<close>.  The \<^verbatim>\<open>try\<close> covers \<^verbatim>\<open>step.func()\<close> only.  The progress
  bar and the file list are display only and are left out.
\<close>

definition execute_step :: "nat \<Rightarrow> window \<Rightarrow> window outcome" where
  "execute_step index w =
     (if length (steps w) \<le> index then Ok w
      else
        (let step = steps w ! index in
         and_then (start_step index w) (\<lambda>w1.
           (let w2 = (log_system (''Step '' @ str_nat (index + 1) @ '': '' @ name step) w1)
                       \<lparr>is_executing := True\<rparr>
            in and_then (make_work_dirs w2) (\<lambda>w3.
                 (case run_step (func step) w3 of
                    Ok w4 \<Rightarrow> Ok w4
                  | Raised e w4 \<Rightarrow>
                      and_then
                        (complete_step (int index) False
                           (log_system (''Error: '' @ exc_text e) w4))
                        (\<lambda>w5. Ok (w5\<lparr>is_executing := False\<rparr>))))))))"






section \<open>Notions used to state the properties\<close>

text \<open>The window a method leaves behind, whether it returned or raised.\<close>

fun result_window :: "window outcome \<Rightarrow> window" where
  "result_window (Ok w) = w"
| "result_window (Raised e w) = w"

text \<open>The exit codes carried by a sequence of events.\<close>

fun exit_events :: "env_event list \<Rightarrow> int list" where
  "exit_events [] = []"
| "exit_events (Exit k # es) = k # exit_events es"
| "exit_events (Timer_shot # es) = exit_events es"

text \<open>
  The missing precondition of a step behaviour, after the pipeline table: a required
  field of the project state is unset (\<^verbatim>\<open>None\<close> or empty), there is no project, or a
  required file is absent from the project directory.
\<close>

fun missing_precondition :: "step_func \<Rightarrow> project_state \<Rightarrow> filesys \<Rightarrow> bool" where
  "missing_precondition step_a9_teth_get_shc_pre s f =
     (\<not> truthy (ipsw s) \<or> root_dir s = None)"
| "missing_precondition step_a9_teth_restore s f =
     (\<not> truthy (ipsw s) \<or> root_dir s = None \<or> \<not> path_exists f ''shcblock_pre.bin'')"
| "missing_precondition step_a9_teth_get_shc_post s f = (root_dir s = None)"
| "missing_precondition step_a9_teth_get_pte s f =
     (root_dir s = None \<or> \<not> path_exists f ''shcblock_post.bin''
      \<or> glob f ''*signed-SEP.img4'' = [])"
| "missing_precondition step_a9_teth_boot s f =
     (root_dir s = None \<or> \<not> path_exists f ''pteblock.bin'')"
| "missing_precondition step_a10_teth_restore s f =
     (\<not> truthy (ipsw s) \<or> root_dir s = None)"
| "missing_precondition step_a10_teth_boot s f =
     (root_dir s = None \<or> glob f ''*iBoot*.img4'' = []
      \<or> glob f ''*signed-SEP.img4'' = [] \<or> glob f ''*target-SEP.im4p'' = [])"
| "missing_precondition step_a9_unteth_get_shc s f =
     (\<not> truthy (ipsw s) \<or> root_dir s = None)"
| "missing_precondition step_a9_unteth_restore s f =
     (\<not> truthy (ipsw s) \<or> \<not> truthy (blob s) \<or> \<not> truthy (gen s) \<or> root_dir s = None
      \<or> \<not> path_exists f ''shcblock_unteth.bin'')"
| "missing_precondition step_a10_unteth_restore s f =
     (\<not> truthy (ipsw s) \<or> \<not> truthy (blob s) \<or> \<not> truthy (gen s) \<or> root_dir s = None)"

text \<open>
  The invariant of a chain started on an idle runner \<open>r0\<close>, by phase: command \<open>j\<close> is
  running; command \<open>j\<close> has exited with 0 and the timer for the next one is pending;
  the chain is over with command \<open>j\<close> and its exit code \<open>k\<close>; the chain was empty.
\<close>

definition phase_running ::
  "string list \<Rightarrow> process_runner \<Rightarrow> nat \<Rightarrow> process_runner \<Rightarrow> bool" where
  "phase_running cmds r0 j r \<longleftrightarrow>
     is_running r \<and> pending_timers r = 0 \<and> chain_conns r = 1 \<and> j < length cmds
     \<and> command_queue r = drop (Suc j) cmds
     \<and> started (emitted r) = started (emitted r0) @ take (Suc j) cmds
     \<and> exit_codes (emitted r) = exit_codes (emitted r0) @ replicate j 0
     \<and> chain_results (emitted r) = chain_results (emitted r0)"

definition phase_waiting ::
  "string list \<Rightarrow> process_runner \<Rightarrow> nat \<Rightarrow> process_runner \<Rightarrow> bool" where
  "phase_waiting cmds r0 j r \<longleftrightarrow>
     \<not> is_running r \<and> pending_timers r = 1 \<and> chain_conns r = 1 \<and> Suc j < length cmds
     \<and> command_queue r = drop (Suc j) cmds
     \<and> started (emitted r) = started (emitted r0) @ take (Suc j) cmds
     \<and> exit_codes (emitted r) = exit_codes (emitted r0) @ replicate (Suc j) 0
     \<and> chain_results (emitted r) = chain_results (emitted r0)"

definition phase_done ::
  "string list \<Rightarrow> process_runner \<Rightarrow> nat \<Rightarrow> int \<Rightarrow> process_runner \<Rightarrow> bool" where
  "phase_done cmds r0 j k r \<longleftrightarrow>
     \<not> is_running r \<and> pending_timers r = 0 \<and> chain_conns r = 0 \<and> j < length cmds
     \<and> command_queue r = []
     \<and> (k = 0 \<longrightarrow> Suc j = length cmds)
     \<and> started (emitted r) = started (emitted r0) @ take (Suc j) cmds
     \<and> exit_codes (emitted r) = exit_codes (emitted r0) @ replicate j 0 @ [k]
     \<and> chain_results (emitted r) = chain_results (emitted r0) @ [k = 0]"

definition phase_empty :: "string list \<Rightarrow> process_runner \<Rightarrow> process_runner \<Rightarrow> bool" where
  "phase_empty cmds r0 r \<longleftrightarrow>
     cmds = [] \<and> \<not> is_running r \<and> pending_timers r = 0 \<and> emitted r = emitted r0"

definition chain_inv :: "string list \<Rightarrow> process_runner \<Rightarrow> process_runner \<Rightarrow> bool" where
  "chain_inv cmds r0 r \<longleftrightarrow>
     (\<exists>j. phase_running cmds r0 j r) \<or> (\<exists>j. phase_waiting cmds r0 j r)
     \<or> (\<exists>j k. phase_done cmds r0 j k r) \<or> phase_empty cmds r0 r"

text \<open>The step list with step \<open>i\<close> marked Failed.\<close>

definition fail_steps :: "int \<Rightarrow> step list \<Rightarrow> step list" where
  "fail_steps i ss = ss[nat i := (ss ! nat i)\<lparr>status := FAILED\<rparr>]"

text \<open>
  How a method of the window may leave the runner: untouched, or after one call of
  \<^verbatim>\<open>run_chain\<close>.
\<close>

definition chained :: "process_runner \<Rightarrow> process_runner \<Rightarrow> bool" where
  "chained r r' \<longleftrightarrow> r' = r \<or> (\<exists>cmds. r' = run_chain cmds r)"






text \<open>
  The lines \<^verbatim>\<open>grep -A 1 'generator'\<close> prints, by their index in the file: the lines that
  contain the text \<^verbatim>\<open>generator\<close> and the line directly after each of them.  In
  \<open>prints_from\<close> the list is the rest of a file and \<open>ctx\<close> tells whether the line
  before it contains the text.
\<close>

definition prints_from :: "bool \<Rightarrow> string list \<Rightarrow> nat \<Rightarrow> bool" where
  "prints_from ctx ls i \<longleftrightarrow>
     i < length ls
     \<and> (contains ''generator'' (ls ! i) \<or> (i = 0 \<and> ctx)
        \<or> (0 < i \<and> contains ''generator'' (ls ! (i - 1))))"


section \<open>Initial window\<close>

text \<open>
  The window as \<^verbatim>\<open>MainWindow.__init__\<close> leaves it: no project, chip A9, tethered mode,
  an idle runner and the step list of \<^verbatim>\<open>load_steps\<close>.  \<open>f\<close> is the content of the
  directory that will be opened, \<open>r\<close> the directory of the script.
\<close>

definition ProjectState :: project_state where
  "ProjectState =
     \<lparr>root_dir = None, ipsw = None, blob = None, gen = None, chip = Some ''A9''\<rparr>"

definition ProcessRunner :: process_runner where
  "ProcessRunner =
     \<lparr>is_running = False, command_queue = [], chain_conns = 0, pending_timers = 0,
      emitted = []\<rparr>"

definition MainWindow :: "filesys \<Rightarrow> string \<Rightarrow> window" where
  "MainWindow f r =
     load_steps
       \<lparr>state = ProjectState, runner = ProcessRunner, steps = [], current_step = - 1,
        step_buttons = [], current_mode = ''teth'', is_executing = False,
        current_step_callback = None, fs = f, notices = [], sys_log = [],
        config_ROOT = r\<rparr>"

section \<open>Concrete projects\<close>

text \<open>
  A project directory that holds exactly \<^verbatim>\<open>shcblock_pre.bin\<close> and \<^verbatim>\<open>restore_done\<close>,
  opened in a fresh window (\<^verbatim>\<open>ProjectState.load\<close> has set \<open>root_dir\<close>).
\<close>

definition resume_dir :: filesys where
  "resume_dir =
     \<lparr>entries = [(''shcblock_pre.bin'', File 1 Opaque), (''restore_done'', File 2 Opaque)],
      clock = 3\<rparr>"

definition resume_window :: window where
  "resume_window =
     (MainWindow resume_dir ''/opt/gui'')
       \<lparr>state := ProjectState\<lparr>root_dir := Some ''/proj''\<rparr>\<rparr>"

text \<open>
  An empty project directory with a firmware image selected, and the same window after
  step 1 has been started: its first command is running.
\<close>

definition empty_dir :: filesys where
  "empty_dir = \<lparr>entries = [], clock = 0\<rparr>"

definition opened_window :: window where
  "opened_window =
     (MainWindow empty_dir ''/opt/gui'')
       \<lparr>state := ProjectState\<lparr>root_dir := Some ''/proj'', ipsw := Some ''/fw/a.ipsw''\<rparr>\<rparr>"

definition busy_window :: window where
  "busy_window = result_window (execute_step 0 opened_window)"








section \<open>Auxiliary lemmas\<close>

subsection \<open>Traces and the chain invariant\<close>

lemma started_append: "started (xs @ ys) = started xs @ started ys"
  by (induction xs rule: started.induct) simp_all

lemma exit_codes_append: "exit_codes (xs @ ys) = exit_codes xs @ exit_codes ys"
  by (induction xs rule: exit_codes.induct) simp_all

lemma chain_results_append: "chain_results (xs @ ys) = chain_results xs @ chain_results ys"
  by (induction xs rule: chain_results.induct) simp_all

lemmas trace_append = started_append exit_codes_append chain_results_append

lemma chain_inv_init:
  assumes "\<not> is_running r0" "pending_timers r0 = 0" "chain_conns r0 = 0"
  shows "chain_inv cmds r0 (run_chain cmds r0)"
proof (cases cmds)
  case Nil
  with assms show ?thesis
    by (simp add: chain_inv_def phase_empty_def run_chain_def)
next
  case (Cons c cs)
  with assms have "phase_running cmds r0 0 (run_chain cmds r0)"
    by (simp add: phase_running_def run_chain_def run_def trace_append)
  then show ?thesis unfolding chain_inv_def by blast
qed

lemma exit_running:
  assumes "phase_running cmds r0 j r"
  shows "phase_waiting cmds r0 j (on_finished k r) \<or> phase_done cmds r0 j k (on_finished k r)"
proof -
  from assms have c: "chain_conns r = 1" and j: "j < length cmds"
    and q: "command_queue r = drop (Suc j) cmds"
    by (simp_all add: phase_running_def)
  show ?thesis
  proof (cases "k = 0 \<and> Suc j < length cmds")
    case True
    then have "command_queue r \<noteq> []" using q by simp
    with True assms have "phase_waiting cmds r0 j (on_finished k r)"
      by (simp add: phase_running_def phase_waiting_def on_finished_def
          on_chain_step_finished_def trace_append replicate_append_same Let_def)
    then show ?thesis ..
  next
    case False
    then have "k \<noteq> 0 \<or> command_queue r = []" using q j by auto
    with False assms j have "phase_done cmds r0 j k (on_finished k r)"
      by (auto simp add: phase_running_def phase_done_def on_finished_def
          on_chain_step_finished_def trace_append Let_def)
    then show ?thesis ..
  qed
qed

lemma timer_waiting:
  assumes "phase_waiting cmds r0 j r"
  shows "\<exists>r'. timer_shot r = Inr r' \<and> phase_running cmds r0 (Suc j) r'"
proof -
  from assms have j: "Suc j < length cmds" and q: "command_queue r = drop (Suc j) cmds"
    by (simp_all add: phase_waiting_def)
  from j have d: "drop (Suc j) cmds = cmds ! Suc j # drop (Suc (Suc j)) cmds"
    by (simp add: Cons_nth_drop_Suc)
  from j have t: "take (Suc (Suc j)) cmds = take (Suc j) cmds @ [cmds ! Suc j]"
    by (simp add: take_Suc_conv_app_nth)
  show ?thesis
    using assms j
    by (simp add: phase_waiting_def phase_running_def timer_shot_def q d run_def
        trace_append t)
qed

lemma chain_inv_step:
  assumes "chain_inv cmds r0 r" and "env_step e r = Some res"
  shows "\<exists>r'. res = Inr r' \<and> chain_inv cmds r0 r'"
proof (cases e)
  case (Exit k)
  with assms(2) have run: "is_running r" and res: "res = Inr (on_finished k r)"
    by (auto simp: env_step_def split: if_splits)
  from assms(1) run obtain j where "phase_running cmds r0 j r"
    by (auto simp: chain_inv_def phase_waiting_def phase_done_def phase_empty_def)
  from exit_running [OF this, of k] res show ?thesis
    unfolding chain_inv_def by blast
next
  case Timer_shot
  with assms(2) have t: "0 < pending_timers r" and res: "res = timer_shot r"
    by (auto simp: env_step_def split: if_splits)
  from assms(1) t obtain j where "phase_waiting cmds r0 j r"
    by (auto simp: chain_inv_def phase_running_def phase_done_def phase_empty_def)
  from timer_waiting [OF this] res show ?thesis
    unfolding chain_inv_def by metis
qed

lemma chain_inv_run:
  assumes "chain_inv cmds r0 r" and "run_events evs r = Some res"
  shows "\<exists>r'. res = Inr r' \<and> chain_inv cmds r0 r'"
  using assms
proof (induction evs arbitrary: r)
  case Nil
  then show ?case by auto
next
  case (Cons e evs)
  from Cons.prems(2) obtain x where x: "env_step e r = Some x"
    by (auto split: option.splits)
  from chain_inv_step [OF Cons.prems(1) x] obtain r1
    where r1: "x = Inr r1" "chain_inv cmds r0 r1" by blast
  with Cons.prems(2) x have "run_events evs r1 = Some res" by simp
  from Cons.IH [OF r1(2) this] show ?case .
qed

lemma fold_handlers_exit_codes:
  "exit_codes (emitted (fold (\<lambda>i r'. if i < chain_conns r'
        then on_chain_step_finished s k r' else r') xs r)) = exit_codes (emitted r)"
  by (induction xs arbitrary: r) (simp_all add: on_chain_step_finished_def trace_append)

lemma on_finished_exit_codes:
  "exit_codes (emitted (on_finished k r)) = exit_codes (emitted r) @ [k]"
  by (simp add: on_finished_def Let_def fold_handlers_exit_codes trace_append)

lemma timer_shot_exit_codes:
  "timer_shot r = Inr r' \<Longrightarrow> exit_codes (emitted r') = exit_codes (emitted r)"
  by (auto simp: timer_shot_def run_def trace_append split: list.splits if_splits)

lemma run_events_exit_codes:
  "run_events evs r = Some (Inr r') \<Longrightarrow>
     exit_codes (emitted r') = exit_codes (emitted r) @ exit_events evs"
proof (induction evs arbitrary: r)
  case Nil
  then show ?case by simp
next
  case (Cons e evs)
  then show ?case
    by (cases e)
      (auto simp: env_step_def on_finished_exit_codes timer_shot_exit_codes
        split: option.splits sum.splits if_splits)
qed

lemma run_chain_exit_codes:
  "exit_codes (emitted (run_chain cmds r)) = exit_codes (emitted r)"
  by (simp add: run_chain_def run_def trace_append Let_def split: list.splits)

lemma last_replicate_nonzero: "last (replicate j (0::int)) \<noteq> 0 \<Longrightarrow> j = 0"
  by (rule ccontr) simp

lemma chain_inv_final:
  assumes "chain_inv cmds r0 r" and ks: "exit_codes (emitted r) = exit_codes (emitted r0) @ ks"
  shows "\<exists>n. started (emitted r) = started (emitted r0) @ take n cmds
       \<and> n \<le> length cmds \<and> length ks \<le> n \<and> n \<le> Suc (length ks)
       \<and> (\<forall>i. Suc i < n \<longrightarrow> ks ! i = 0)
       \<and> chain_results (emitted r) = chain_results (emitted r0)
            @ (if ks \<noteq> [] \<and> last ks \<noteq> 0 then [False]
               else if cmds \<noteq> [] \<and> length ks = length cmds then [True] else [])
       \<and> (ks \<noteq> [] \<and> last ks \<noteq> 0 \<longrightarrow>
            n = length ks \<and> command_queue r = [] \<and> \<not> is_running r \<and> pending_timers r = 0)"
proof -
  consider (run) j where "phase_running cmds r0 j r"
    | (wait) j where "phase_waiting cmds r0 j r"
    | (fin) j k where "phase_done cmds r0 j k r"
    | (empty) "phase_empty cmds r0 r"
    using assms(1) unfolding chain_inv_def by blast
  then show ?thesis
  proof cases
    case run
    with ks have "ks = replicate j 0" by (simp add: phase_running_def)
    with run show ?thesis
      by (intro exI [of _ "Suc j"])
        (auto simp: phase_running_def dest: last_replicate_nonzero)
  next
    case wait
    with ks have "ks = replicate (Suc j) 0" by (simp add: phase_waiting_def)
    with wait show ?thesis
      by (intro exI [of _ "Suc j"])
        (auto simp: phase_waiting_def nth_Cons' dest: last_replicate_nonzero)
  next
    case fin
    with ks have "ks = replicate j 0 @ [k]" by (simp add: phase_done_def)
    with fin show ?thesis
      by (intro exI [of _ "Suc j"]) (auto simp: phase_done_def nth_append)
  next
    case empty
    with ks have "ks = []" by (simp add: phase_empty_def)
    with empty show ?thesis
      by (intro exI [of _ 0]) (auto simp: phase_empty_def)
  qed
qed

subsection \<open>Step bookkeeping and preconditions\<close>

lemma run_step_missing:
  assumes "missing_precondition f (state w) (fs w)"
  shows "\<exists>text. run_step f w = missing text w"
  using assms by (cases f) (auto split: list.splits)

lemma complete_step_failed:
  assumes "0 \<le> i" and "i < int (length (steps w))"
    and "length (step_buttons w) \<le> length (steps w)"
  shows "complete_step i False w =
           Ok (w\<lparr>steps := fail_steps i (steps w),
                 step_buttons := render_buttons (fail_steps i (steps w)) (step_buttons w)\<rparr>)"
  using assms by (simp add: complete_step_def on_step_changed_def Let_def fail_steps_def)

lemma missing_failed:
  assumes "0 \<le> current_step w" and "current_step w < int (length (steps w))"
    and "length (step_buttons w) \<le> length (steps w)"
  shows "missing text w =
           Ok (w\<lparr>notices := notices w @ [(''Missing'', text)],
                 steps := fail_steps (current_step w) (steps w),
                 step_buttons := render_buttons (fail_steps (current_step w) (steps w))
                                   (step_buttons w),
                 is_executing := False\<rparr>)"
proof -
  let ?w1 = "warning ''Missing'' text w"
  have "0 \<le> current_step w" "current_step w < int (length (steps ?w1))"
    "length (step_buttons ?w1) \<le> length (steps ?w1)"
    using assms by (simp_all add: warning_def)
  from complete_step_failed [OF this] show ?thesis
    by (simp add: missing_def warning_def)
qed

lemma length_render_buttons [simp]: "length (render_buttons ss bs) = length bs"
  by (simp add: render_buttons_def Let_def)

lemma start_step_ok:
  assumes "index < length (steps w)" and "length (step_buttons w) \<le> length (steps w)"
  shows "start_step index w =
           Ok (w\<lparr>current_step := int index,
                 steps := (steps w)[index := (steps w ! index)\<lparr>status := RUNNING\<rparr>],
                 step_buttons := render_buttons
                    ((steps w)[index := (steps w ! index)\<lparr>status := RUNNING\<rparr>])
                    (step_buttons w)\<rparr>)"
  using assms by (simp add: start_step_def on_step_changed_def Let_def)

lemma lookup_mkdir:
  "mkdir_exist_ok n f = Inr f' \<Longrightarrow> m \<noteq> n \<Longrightarrow> lookup f' m = lookup f m"
  by (auto simp: mkdir_exist_ok_def lookup_def map_add_def split: option.splits node.splits)

lemma glob_mkdir:
  "mkdir_exist_ok n f = Inr f' \<Longrightarrow> \<not> fnmatch pat n \<Longrightarrow> glob f' pat = glob f pat"
  by (auto simp: mkdir_exist_ok_def glob_def split: option.splits node.splits)

lemma mkdir_ok:
  "\<not> node_is_file (lookup f n) \<Longrightarrow> \<exists>f'. mkdir_exist_ok n f = Inr f'"
  by (auto simp: mkdir_exist_ok_def split: option.splits node.splits)

lemma make_work_dirs_ok:
  assumes "root_dir (state w) = None
           \<or> \<not> node_is_file (lookup (fs w) ''block'')
             \<and> \<not> node_is_file (lookup (fs w) ''image4'')"
  shows "\<exists>f'. make_work_dirs w = Ok (w\<lparr>fs := f'\<rparr>)
           \<and> (\<forall>m. m \<noteq> ''block'' \<and> m \<noteq> ''image4'' \<longrightarrow> lookup f' m = lookup (fs w) m)
           \<and> (\<forall>pat. \<not> fnmatch pat ''block'' \<and> \<not> fnmatch pat ''image4''
                 \<longrightarrow> glob f' pat = glob (fs w) pat)"
proof (cases "root_dir (state w)")
  case None
  then have "make_work_dirs w = Ok (w\<lparr>fs := fs w\<rparr>)"
    by (simp add: make_work_dirs_def)
  then show ?thesis by blast
next
  case (Some d)
  with assms have nb: "\<not> node_is_file (lookup (fs w) ''block'')"
    and ni: "\<not> node_is_file (lookup (fs w) ''image4'')" by auto
  from mkdir_ok [OF nb] obtain f1 where f1: "mkdir_exist_ok ''block'' (fs w) = Inr f1"
    by blast
  have "lookup f1 ''image4'' = lookup (fs w) ''image4''"
    using lookup_mkdir [OF f1, of "''image4''"] by simp
  with ni have "\<not> node_is_file (lookup f1 ''image4'')" by simp
  from mkdir_ok [OF this] obtain f2 where f2: "mkdir_exist_ok ''image4'' f1 = Inr f2"
    by blast
  have "make_work_dirs w = Ok (w\<lparr>fs := f2\<rparr>)"
    using Some f1 f2 by (simp add: make_work_dirs_def)
  moreover have "\<forall>m. m \<noteq> ''block'' \<and> m \<noteq> ''image4'' \<longrightarrow> lookup f2 m = lookup (fs w) m"
    using lookup_mkdir [OF f1] lookup_mkdir [OF f2] by simp
  moreover have "\<forall>pat. \<not> fnmatch pat ''block'' \<and> \<not> fnmatch pat ''image4''
                 \<longrightarrow> glob f2 pat = glob (fs w) pat"
    using glob_mkdir [OF f1] glob_mkdir [OF f2] by simp
  ultimately show ?thesis by blast
qed

lemma missing_precondition_frame:
  assumes "missing_precondition f s g"
    and "\<forall>m. m \<noteq> ''block'' \<and> m \<noteq> ''image4'' \<longrightarrow> lookup g' m = lookup g m"
    and "\<forall>pat. \<not> fnmatch pat ''block'' \<and> \<not> fnmatch pat ''image4''
            \<longrightarrow> glob g' pat = glob g pat"
  shows "missing_precondition f s g'"
proof -
  have g1: "glob g' ''*signed-SEP.img4'' = glob g ''*signed-SEP.img4''"
    using assms(3) by simp
  have g2: "glob g' ''*iBoot*.img4'' = glob g ''*iBoot*.img4''"
    using assms(3) by simp
  have g3: "glob g' ''*target-SEP.im4p'' = glob g ''*target-SEP.im4p''"
    using assms(3) by simp
  have p: "path_exists g' ''shcblock_pre.bin'' = path_exists g ''shcblock_pre.bin''"
    "path_exists g' ''shcblock_post.bin'' = path_exists g ''shcblock_post.bin''"
    "path_exists g' ''pteblock.bin'' = path_exists g ''pteblock.bin''"
    "path_exists g' ''shcblock_unteth.bin'' = path_exists g ''shcblock_unteth.bin''"
    using assms(2) by (simp_all add: path_exists_def)
  show ?thesis
    using assms(1) by (cases f) (simp_all add: g1 g2 g3 p)
qed

subsection \<open>What a step does to the runner\<close>

lemma run_chain_busy:
  "is_running r \<Longrightarrow> emitted (run_chain cmds r) = emitted r \<and> is_running (run_chain cmds r)"
  by (simp add: run_chain_def run_def Let_def split: list.splits)

lemma result_window_and_then:
  "result_window (and_then m k) =
     (case m of Ok x \<Rightarrow> result_window (k x) | Raised e w \<Rightarrow> w)"
  by (cases m) simp_all

lemma on_step_changed_runner [simp]:
  "runner (result_window (on_step_changed w)) = runner w"
  by (simp add: on_step_changed_def Let_def)

lemma start_step_runner [simp]:
  "runner (result_window (start_step i w)) = runner w"
  by (simp add: start_step_def)

lemma complete_step_runner [simp]:
  "runner (result_window (complete_step i b w)) = runner w"
  by (simp add: complete_step_def)

lemma complete_step_cases:
  "(\<exists>w'. complete_step i b w = Ok w' \<and> runner w' = runner w)
   \<or> (\<exists>e w'. complete_step i b w = Raised e w' \<and> runner w' = runner w)"
  using complete_step_runner [of i b w]
  by (cases "complete_step i b w") auto

lemma start_step_cases:
  "(\<exists>w'. start_step i w = Ok w' \<and> runner w' = runner w)
   \<or> (\<exists>e w'. start_step i w = Raised e w' \<and> runner w' = runner w)"
  using start_step_runner [of i w]
  by (cases "start_step i w") auto

lemma missing_runner [simp]:
  "runner (result_window (missing t w)) = runner w"
  using complete_step_cases [of "current_step w" False "warning ''Missing'' t w"]
  by (auto simp: missing_def warning_def)

lemma make_work_dirs_runner [simp]:
  "runner (result_window (make_work_dirs w)) = runner w"
  by (simp add: make_work_dirs_def split: option.splits sum.splits)

lemma make_work_dirs_cases:
  "(\<exists>w'. make_work_dirs w = Ok w' \<and> runner w' = runner w)
   \<or> (\<exists>e w'. make_work_dirs w = Raised e w' \<and> runner w' = runner w)"
  using make_work_dirs_runner [of w]
  by (cases "make_work_dirs w") auto

lemma run_step_runner:
  "chained (runner w) (runner (result_window (run_step f w)))"
  unfolding chained_def
  by (cases f) (auto simp: start_chain_def log_system_def Let_def split: list.splits)

lemma run_step_cases:
  "(\<exists>w'. run_step f w = Ok w' \<and> chained (runner w) (runner w'))
   \<or> (\<exists>e w'. run_step f w = Raised e w' \<and> chained (runner w) (runner w'))"
  using run_step_runner [of w f]
  by (cases "run_step f w") auto

lemma execute_step_runner:
  "chained (runner w) (runner (result_window (execute_step j w)))"
proof (cases "length (steps w) \<le> j")
  case True
  then show ?thesis by (simp add: execute_step_def chained_def)
next
  case False
  define w2f where "w2f = (\<lambda>w1. (log_system (''Step '' @ str_nat (j + 1) @ '': ''
                    @ name (steps w ! j)) w1)\<lparr>is_executing := True\<rparr>)"
  have w2f: "\<And>v. runner (w2f v) = runner v" by (simp add: w2f_def log_system_def)
  have ex: "execute_step j w =
          and_then (start_step j w) (\<lambda>w1.
            and_then (make_work_dirs (w2f w1))
              (\<lambda>w3. case run_step (func (steps w ! j)) w3 of
                    Ok w4 \<Rightarrow> Ok w4
                  | Raised e w4 \<Rightarrow>
                      and_then
                        (complete_step (int j) False
                           (log_system (''Error: '' @ exc_text e) w4))
                        (\<lambda>w5. Ok (w5\<lparr>is_executing := False\<rparr>))))"
    using False by (simp add: execute_step_def Let_def w2f_def)
  from start_step_cases [of j w] show ?thesis
  proof (elim disjE exE conjE)
    fix e w' assume "start_step j w = Raised e w'" "runner w' = runner w"
    then show ?thesis by (simp add: ex chained_def)
  next
    fix w1 assume s: "start_step j w = Ok w1" and r1: "runner w1 = runner w"
    from make_work_dirs_cases [of "w2f w1"] show ?thesis
    proof (elim disjE exE conjE)
      fix e w' assume "make_work_dirs (w2f w1) = Raised e w'" "runner w' = runner (w2f w1)"
      then show ?thesis by (simp add: ex s w2f r1 chained_def)
    next
      fix w3 assume m: "make_work_dirs (w2f w1) = Ok w3" and r3: "runner w3 = runner (w2f w1)"
      from run_step_cases [of "func (steps w ! j)" w3] show ?thesis
      proof (elim disjE exE conjE)
        fix w4 assume "run_step (func (steps w ! j)) w3 = Ok w4"
          "chained (runner w3) (runner w4)"
        then show ?thesis by (simp add: ex s m r3 w2f r1)
      next
        fix e w4 assume rs: "run_step (func (steps w ! j)) w3 = Raised e w4"
          and c: "chained (runner w3) (runner w4)"
        have "runner (result_window (and_then
                        (complete_step (int j) False
                           (log_system (''Error: '' @ exc_text e) w4))
                        (\<lambda>w5. Ok (w5\<lparr>is_executing := False\<rparr>)))) = runner w4"
          using complete_step_cases [of "int j" False "log_system (''Error: '' @ exc_text e) w4"]
          by (auto simp: log_system_def)
        with c show ?thesis by (simp add: ex s m rs r3 w2f r1)
      qed
    qed
  qed
qed

subsection \<open>Flattening the working subdirectories\<close>

lemma lookup_update_entries:
  "lookup (f\<lparr>entries := AList.update k v (entries f)\<rparr>) m
     = (if m = k then Some v else lookup f m)"
  by (simp add: lookup_def update_conv')


lemma lookup_clock [simp]: "lookup (f\<lparr>clock := c\<rparr>) m = lookup f m"
  by (simp add: lookup_def)




















subsection \<open>Searching the output of grep line by line\<close>
























lemma prints_from_Suc [simp]:
  "prints_from ctx (l # ls) (Suc i) \<longleftrightarrow> prints_from (contains ''generator'' l) ls i"
  by (cases i) (auto simp: prints_from_def)













subsection \<open>The loop of progress detection\<close>






section \<open>Verified properties\<close>

subsection \<open>Step definition table\<close>

text \<open>
  C3: for each of the four (chip, mode) pairs the step list built by \<^verbatim>\<open>load_steps\<close> has
  the count and order of the pipeline table: A9 tethered has five steps (get SHC pre,
  restore, get SHC post, get pteblock, boot), A10 tethered two (restore, boot), A9
  untethered two (get SHC, restore), A10 untethered one (restore); every step starts
  Pending.
\<close>

theorem load_steps_pipelines:
  "map (\<lambda>s. (name s, func s, status s))
     (steps (load_steps (w\<lparr>current_mode := ''teth'',
                            state := (state w)\<lparr>chip := Some ''A9''\<rparr>\<rparr>))) =
     [(''Get SHC (pre)'', step_a9_teth_get_shc_pre, PENDING),
      (''Restore Device'', step_a9_teth_restore, PENDING),
      (''Get SHC (post)'', step_a9_teth_get_shc_post, PENDING),
      (''Get pteblock'', step_a9_teth_get_pte, PENDING),
      (''Boot Device'', step_a9_teth_boot, PENDING)]
   \<and> map (\<lambda>s. (name s, func s, status s))
     (steps (load_steps (w\<lparr>current_mode := ''teth'',
                            state := (state w)\<lparr>chip := Some ''A10''\<rparr>\<rparr>))) =
     [(''Restore Device'', step_a10_teth_restore, PENDING),
      (''Boot Device'', step_a10_teth_boot, PENDING)]
   \<and> map (\<lambda>s. (name s, func s, status s))
     (steps (load_steps (w\<lparr>current_mode := ''unteth'',
                            state := (state w)\<lparr>chip := Some ''A9''\<rparr>\<rparr>))) =
     [(''Get SHC Block'', step_a9_unteth_get_shc, PENDING),
      (''Untethered Restore'', step_a9_unteth_restore, PENDING)]
   \<and> map (\<lambda>s. (name s, func s, status s))
     (steps (load_steps (w\<lparr>current_mode := ''unteth'',
                            state := (state w)\<lparr>chip := Some ''A10''\<rparr>\<rparr>))) =
     [(''Untethered Restore'', step_a10_unteth_restore, PENDING)]"
  by (simp add: load_steps_def step_table_def set_steps_def
      update_step_buttons_state_def Step_def Let_def)

subsection \<open>Progress detection\<close>




subsection \<open>Command chains\<close>

text \<open>
  C1, as the code has it: a chain started by \<^verbatim>\<open>run_chain\<close> on an idle runner (no
  process running, no timer pending, no connection left over) and then driven only by
  process exits and timer expiries.  In every state it reaches, the commands started
  are the first \<open>n\<close> commands of the chain in order; the exit of every command before
  the last started one has been observed (\<open>n\<close> is at most one more than the number of
  exits) with exit code 0; \<^verbatim>\<open>command_chain_finished(False)\<close> has been emitted exactly when
  the last observed exit code is not 0, and then the queue is empty, nothing is running
  and no timer is pending, so no later command of the chain is ever started;
  \<^verbatim>\<open>command_chain_finished(True)\<close> has been emitted exactly when all commands have
  exited with 0.  No timer callback raises.
\<close>

theorem chain_order:
  assumes "\<not> is_running r0" and "pending_timers r0 = 0" and "chain_conns r0 = 0"
    and "run_events evs (run_chain cmds r0) = Some res"
  shows "\<exists>r n. res = Inr r
       \<and> started (emitted r) = started (emitted r0) @ take n cmds
       \<and> exit_codes (emitted r) = exit_codes (emitted r0) @ exit_events evs
       \<and> n \<le> length cmds \<and> length (exit_events evs) \<le> n \<and> n \<le> Suc (length (exit_events evs))
       \<and> (\<forall>i. Suc i < n \<longrightarrow> exit_events evs ! i = 0)
       \<and> chain_results (emitted r) = chain_results (emitted r0)
            @ (if exit_events evs \<noteq> [] \<and> last (exit_events evs) \<noteq> 0 then [False]
               else if cmds \<noteq> [] \<and> length (exit_events evs) = length cmds then [True] else [])
       \<and> (exit_events evs \<noteq> [] \<and> last (exit_events evs) \<noteq> 0 \<longrightarrow>
            n = length (exit_events evs) \<and> command_queue r = [] \<and> \<not> is_running r
            \<and> pending_timers r = 0)"
proof -
  from chain_inv_run [OF chain_inv_init [OF assms(1-3)] assms(4)]
  obtain r where r: "res = Inr r" "chain_inv cmds r0 r" by blast
  from assms(4) r(1)
  have "exit_codes (emitted r) = exit_codes (emitted r0) @ exit_events evs"
    using run_events_exit_codes [of evs "run_chain cmds r0" r]
    by (simp add: run_chain_exit_codes)
  from chain_inv_final [OF r(2) this] r(1) this show ?thesis by blast
qed

text \<open>
  Witness: the chain \<^verbatim>\<open>["a", "b"]\<close> on a fresh runner, whose first command exits
  with code 1: \<^verbatim>\<open>b\<close> is not started, the chain failure is emitted, the queue is
  empty and no further event can happen.
\<close>

theorem chain_order_witness:
  "started (emitted (on_finished 1 (run_chain [''a'', ''b''] ProcessRunner))) = [''a'']
   \<and> chain_results (emitted (on_finished 1 (run_chain [''a'', ''b''] ProcessRunner)))
       = [False]
   \<and> command_queue (on_finished 1 (run_chain [''a'', ''b''] ProcessRunner)) = []
   \<and> env_step Timer_shot (on_finished 1 (run_chain [''a'', ''b''] ProcessRunner)) = None
   \<and> env_step (Exit 0) (on_finished 1 (run_chain [''a'', ''b''] ProcessRunner)) = None"
  using chain_order [of ProcessRunner "[Exit 1]" "[''a'', ''b'']"
      "Inr (on_finished 1 (run_chain [''a'', ''b''] ProcessRunner))"]
  by (auto simp: ProcessRunner_def env_step_def run_chain_def run_def)

text \<open>
  Counterexample to C1 as stated: \<^verbatim>\<open>run_chain(["b1", "b2"])\<close> is called while the
  command of an earlier chain \<^verbatim>\<open>["a"]\<close> is running.  \<^verbatim>\<open>b1\<close> is popped and dropped
  (\<^verbatim>\<open>run\<close> returns \<^verbatim>\<open>False\<close>); when \<^verbatim>\<open>a\<close> exits with 0 and the timer fires, \<^verbatim>\<open>b2\<close> is
  started although \<^verbatim>\<open>b1\<close> never ran.
\<close>

theorem chain_order_busy_counterexample:
  "timer_shot (on_finished 0 (run_chain [''b1'', ''b2''] (run_chain [''a''] ProcessRunner)))
     = Inr \<lparr>is_running = True, command_queue = [], chain_conns = 2, pending_timers = 1,
            emitted = [Output_received ''CMD'' ''$ a'', Process_start ''a'',
                       Process_finished True 0,
                       Output_received ''CMD'' ''$ b2'', Process_start ''b2'']\<rparr>"
  by (simp add: ProcessRunner_def run_chain_def run_def on_finished_def
      on_chain_step_finished_def timer_shot_def Let_def upt_rec)

text \<open>
  C10: \<^verbatim>\<open>run_chain([])\<close> on an idle runner starts no process and emits nothing, but
  leaves the chain handler connected; a single command run afterwards therefore ends
  with a chain-completion event (success exactly when its exit code is 0), which the
  same command on the untouched runner does not emit.
\<close>

theorem run_chain_empty:
  assumes "\<not> is_running r" and "chain_conns r = 0"
  shows "emitted (run_chain [] r) = emitted r
       \<and> \<not> is_running (run_chain [] r)
       \<and> chain_conns (run_chain [] r) = 1
       \<and> fst (run c (run_chain [] r))
       \<and> emitted (on_finished k (snd (run c (run_chain [] r))))
           = emitted r @ [Output_received ''CMD'' (''$ '' @ c), Process_start c,
                          Process_finished (k = 0) k, Command_chain_finished (k = 0)]
       \<and> emitted (on_finished k (snd (run c r)))
           = emitted r @ [Output_received ''CMD'' (''$ '' @ c), Process_start c,
                          Process_finished (k = 0) k]"
  using assms
  by (simp add: run_chain_def run_def on_finished_def on_chain_step_finished_def Let_def)

text \<open>Witness: a fresh runner, the command \<^verbatim>\<open>ls\<close>, exit code 0.\<close>

theorem run_chain_empty_witness:
  "emitted (run_chain [] ProcessRunner) = []
   \<and> chain_conns (run_chain [] ProcessRunner) = 1
   \<and> emitted (on_finished 0 (snd (run ''ls'' (run_chain [] ProcessRunner))))
       = [Output_received ''CMD'' ''$ ls'', Process_start ''ls'',
          Process_finished True 0, Command_chain_finished True]
   \<and> emitted (on_finished 0 (snd (run ''ls'' ProcessRunner)))
       = [Output_received ''CMD'' ''$ ls'', Process_start ''ls'', Process_finished True 0]"
  using run_chain_empty [of ProcessRunner "''ls''" 0]
  by (simp add: ProcessRunner_def)

subsection \<open>One process at a time\<close>

text \<open>
  C2, as the code has it: while the process of a step is active (\<open>is_running\<close>),
  \<^verbatim>\<open>execute_step(j)\<close> starts no second process and the runner emits nothing:
  \<^verbatim>\<open>ProcessRunner.run\<close> returns \<^verbatim>\<open>False\<close> and is a no-op, whatever step \<open>j\<close> is and
  whether it returns or raises.
\<close>

theorem single_process:
  assumes "is_running (runner w)"
  shows "emitted (runner (result_window (execute_step j w))) = emitted (runner w)
       \<and> is_running (runner (result_window (execute_step j w)))
       \<and> \<not> fst (run c (runner w))"
  using execute_step_runner [of w j] assms run_chain_busy [of "runner w"]
  by (auto simp: chained_def run_def)

text \<open>Witness: step 3 is requested while the first command of step 1 is running.\<close>

theorem single_process_witness:
  "emitted (runner (result_window (execute_step 2 busy_window)))
     = emitted (runner busy_window)
   \<and> is_running (runner (result_window (execute_step 2 busy_window)))
   \<and> \<not> fst (run ''ls'' (runner busy_window))"
proof -
  have "is_running (runner busy_window)"
    by (simp add: busy_window_def opened_window_def MainWindow_def ProjectState_def
        ProcessRunner_def load_steps_def step_table_def set_steps_def
        update_step_buttons_state_def Step_def StepButton_def Let_def empty_dir_def
        execute_step_def start_step_def on_step_changed_def render_buttons_def
        log_system_def make_work_dirs_def mkdir_exist_ok_def lookup_def
        start_chain_def run_chain_def run_def)
  from single_process [OF this, of 2 "''ls''"] show ?thesis .
qed

text \<open>
  Counterexample to C2 as stated: \<^verbatim>\<open>execute_step\<close> does not look at \<^verbatim>\<open>is_executing\<close>.
  While step 1 is Running and \<^verbatim>\<open>is_executing\<close> is true, \<^verbatim>\<open>execute_step(2)\<close> (step 3)
  is not rejected: it returns normally with steps 1 and 3 both Running, step 3 the
  current step and the callback of step 1 replaced.
\<close>

theorem execute_step_not_rejected_counterexample:
  "is_executing busy_window
   \<and> map status (steps busy_window) = [RUNNING, PENDING, PENDING, PENDING, PENDING]
   \<and> current_step_callback busy_window = Some on_complete_a9_teth_get_shc_pre
   \<and> execute_step 2 busy_window = Ok (result_window (execute_step 2 busy_window))
   \<and> map status (steps (result_window (execute_step 2 busy_window)))
       = [RUNNING, PENDING, RUNNING, PENDING, PENDING]
   \<and> current_step (result_window (execute_step 2 busy_window)) = 2
   \<and> current_step_callback (result_window (execute_step 2 busy_window))
       = Some on_complete_a9_teth_get_shc_post"
  by (simp add: busy_window_def opened_window_def MainWindow_def ProjectState_def
      ProcessRunner_def load_steps_def step_table_def set_steps_def
      update_step_buttons_state_def Step_def StepButton_def Let_def empty_dir_def
      execute_step_def start_step_def on_step_changed_def render_buttons_def
      log_system_def make_work_dirs_def mkdir_exist_ok_def lookup_def
      start_chain_def run_chain_def run_def)

subsection \<open>Missing preconditions\<close>

text \<open>
  C8: when \<^verbatim>\<open>execute_step\<close> runs a step whose precondition is missing (a required field
  of the project state unset, no project, or a required file absent), the step is
  marked Failed, one blocking warning titled Missing is shown, the runner is left
  untouched (no command is started or queued) and \<^verbatim>\<open>is_executing\<close> is cleared.  The
  step list and its buttons are the ones \<^verbatim>\<open>load_steps\<close> builds together, and neither
  \<^verbatim>\<open>block\<close> nor \<^verbatim>\<open>image4\<close> is a regular file in the project directory.
\<close>

theorem precondition_fails_fast:
  assumes idx: "index < length (steps w)"
    and btn: "length (step_buttons w) \<le> length (steps w)"
    and dirs: "root_dir (state w) = None
               \<or> \<not> node_is_file (lookup (fs w) ''block'')
                 \<and> \<not> node_is_file (lookup (fs w) ''image4'')"
    and pre: "missing_precondition (func (steps w ! index)) (state w) (fs w)"
  shows "\<exists>w' msg. execute_step index w = Ok w'
         \<and> status (steps w' ! index) = FAILED
         \<and> notices w' = notices w @ [(''Missing'', msg)]
         \<and> runner w' = runner w
         \<and> \<not> is_executing w'"
proof -
  define ss where "ss = (steps w)[index := (steps w ! index)\<lparr>status := RUNNING\<rparr>]"
  define w1 where "w1 = w\<lparr>current_step := int index, steps := ss,
                           step_buttons := render_buttons ss (step_buttons w)\<rparr>"
  define w2 where "w2 = (log_system (''Step '' @ str_nat (index + 1) @ '': ''
                           @ name (steps w ! index)) w1)\<lparr>is_executing := True\<rparr>"
  have s1: "start_step index w = Ok w1"
    unfolding w1_def ss_def by (rule start_step_ok [OF idx btn])
  have w2: "state w2 = state w" "fs w2 = fs w" "runner w2 = runner w"
    "notices w2 = notices w" "current_step w2 = int index"
    "length (steps w2) = length (steps w)" "length (step_buttons w2) = length (step_buttons w)"
    by (simp_all add: w2_def w1_def ss_def log_system_def)
  have "root_dir (state w2) = None
        \<or> \<not> node_is_file (lookup (fs w2) ''block'')
          \<and> \<not> node_is_file (lookup (fs w2) ''image4'')"
    using dirs by (simp add: w2)
  from make_work_dirs_ok [OF this] obtain f' where
    mk: "make_work_dirs w2 = Ok (w2\<lparr>fs := f'\<rparr>)"
    and lk: "\<forall>m. m \<noteq> ''block'' \<and> m \<noteq> ''image4'' \<longrightarrow> lookup f' m = lookup (fs w) m"
    and gl: "\<forall>pat. \<not> fnmatch pat ''block'' \<and> \<not> fnmatch pat ''image4''
                 \<longrightarrow> glob f' pat = glob (fs w) pat"
    unfolding w2 by blast
  define w3 where "w3 = w2\<lparr>fs := f'\<rparr>"
  have w3: "state w3 = state w" "fs w3 = f'" "runner w3 = runner w"
    "notices w3 = notices w" "current_step w3 = int index"
    "length (steps w3) = length (steps w)" "length (step_buttons w3) = length (step_buttons w)"
    by (simp_all add: w3_def w2)
  have "missing_precondition (func (steps w ! index)) (state w3) (fs w3)"
    unfolding w3 by (rule missing_precondition_frame [OF pre lk gl])
  from run_step_missing [OF this] obtain msg where
    rs: "run_step (func (steps w ! index)) w3 = missing msg w3" by blast
  have "0 \<le> current_step w3" "current_step w3 < int (length (steps w3))"
    "length (step_buttons w3) \<le> length (steps w3)"
    using idx btn by (simp_all add: w3)
  note mf = missing_failed [OF this, of msg]
  define w4 where "w4 = w3\<lparr>notices := notices w3 @ [(''Missing'', msg)],
                 steps := fail_steps (current_step w3) (steps w3),
                 step_buttons := render_buttons (fail_steps (current_step w3) (steps w3))
                                   (step_buttons w3),
                 is_executing := False\<rparr>"
  have "execute_step index w =
          and_then (start_step index w) (\<lambda>w1.
            and_then (make_work_dirs
                ((log_system (''Step '' @ str_nat (index + 1) @ '': ''
                    @ name (steps w ! index)) w1)\<lparr>is_executing := True\<rparr>))
              (\<lambda>w3. case run_step (func (steps w ! index)) w3 of
                    Ok w4 \<Rightarrow> Ok w4
                  | Raised e w4 \<Rightarrow>
                      and_then
                        (complete_step (int index) False
                           (log_system (''Error: '' @ exc_text e) w4))
                        (\<lambda>w5. Ok (w5\<lparr>is_executing := False\<rparr>))))"
    using idx by (simp add: execute_step_def Let_def)
  also have "\<dots> = Ok w4"
    unfolding s1 and_then.simps w2_def [symmetric] mk w3_def [symmetric] rs mf
      w4_def [symmetric] by simp
  finally have ex: "execute_step index w = Ok w4" .
  have "status (steps w4 ! index) = FAILED"
    using idx by (simp add: w4_def w3 fail_steps_def)
  moreover have "notices w4 = notices w @ [(''Missing'', msg)]"
    by (simp add: w4_def w3)
  moreover have "runner w4 = runner w" by (simp add: w4_def w3)
  moreover have "\<not> is_executing w4" by (simp add: w4_def)
  ultimately show ?thesis using ex by blast
qed

text \<open>
  Witness: A9 tethered step 2 (restore) in a project with a firmware image but no
  \<^verbatim>\<open>shcblock_pre.bin\<close>.
\<close>

theorem precondition_fails_fast_witness:
  "\<exists>w'. execute_step 1 opened_window = Ok w'
      \<and> status (steps w' ! 1) = FAILED
      \<and> notices w' = [(''Missing'', ''Need shcblock_pre.bin'')]
      \<and> runner w' = ProcessRunner
      \<and> \<not> is_executing w'"
proof -
  have n: "notices opened_window = []" "runner opened_window = ProcessRunner"
    "func (steps opened_window ! Suc 0) = step_a9_teth_restore"
    "length (steps opened_window) = 5" "length (step_buttons opened_window) = 5"
    "fs opened_window = empty_dir"
    "state opened_window
       = ProjectState\<lparr>root_dir := Some ''/proj'', ipsw := Some ''/fw/a.ipsw''\<rparr>"
    by (simp_all add: opened_window_def MainWindow_def load_steps_def step_table_def
        set_steps_def update_step_buttons_state_def Step_def StepButton_def Let_def
        ProjectState_def)
  have "\<exists>w' msg. execute_step 1 opened_window = Ok w'
         \<and> status (steps w' ! 1) = FAILED
         \<and> notices w' = notices opened_window @ [(''Missing'', msg)]
         \<and> runner w' = runner opened_window
         \<and> \<not> is_executing w'"
    by (rule precondition_fails_fast)
      (simp_all add: n empty_dir_def lookup_def path_exists_def ProjectState_def)
  then obtain w' msg where w': "execute_step 1 opened_window = Ok w'"
    "status (steps w' ! 1) = FAILED"
    "notices w' = notices opened_window @ [(''Missing'', msg)]"
    "runner w' = runner opened_window" "\<not> is_executing w'" by blast
  have "notices (result_window (execute_step 1 opened_window))
          = [(''Missing'', ''Need shcblock_pre.bin'')]"
    by (simp add: opened_window_def MainWindow_def ProjectState_def
        ProcessRunner_def load_steps_def step_table_def set_steps_def
        update_step_buttons_state_def Step_def StepButton_def Let_def empty_dir_def
        execute_step_def start_step_def on_step_changed_def render_buttons_def
        log_system_def make_work_dirs_def mkdir_exist_ok_def lookup_def
        path_exists_def missing_def warning_def complete_step_def)
  with w' n show ?thesis by simp
qed

subsection \<open>Artifact resolution\<close>

text \<open>
  C5: in a project directory where the canonical target of a block-fetching step
  (\<^verbatim>\<open>shcblock_pre.bin\<close>, \<^verbatim>\<open>shcblock_post.bin\<close>, \<^verbatim>\<open>pteblock.bin\<close>, \<^verbatim>\<open>shcblock_unteth.bin\<close>)
  already exists, the step's chain-completion callback, called for a chain that
  succeeded, reports success and changes nothing but the system log: the project
  directory is the same, no file is renamed, moved or deleted.  Called for a failed
  chain it changes nothing at all and passes the failure on.
\<close>

theorem artifact_resolver_idempotent:
  assumes "root_dir (state w) = Some d"
    and "(cb, target) \<in> {(on_complete_a9_teth_get_shc_pre, ''shcblock_pre.bin''),
                          (on_complete_a9_teth_get_shc_post, ''shcblock_post.bin''),
                          (on_complete_a9_teth_get_pte, ''pteblock.bin''),
                          (on_complete_a9_unteth_get_shc, ''shcblock_unteth.bin'')}"
    and "path_exists (fs w) target"
  shows "on_complete cb True w
           = Ok (True, w\<lparr>sys_log := sys_log w @ [''Saved: '' @ target]\<rparr>)
       \<and> fs (w\<lparr>sys_log := sys_log w @ [''Saved: '' @ target]\<rparr>) = fs w
       \<and> on_complete cb False w = Ok (False, w)"
  using assms by (auto simp: resolve_artifact_def log_system_def)

text \<open>Witness: the callback of step 1 in the directory that holds \<^verbatim>\<open>shcblock_pre.bin\<close>.\<close>

theorem artifact_resolver_idempotent_witness:
  "on_complete on_complete_a9_teth_get_shc_pre True resume_window
     = Ok (True, resume_window\<lparr>sys_log := [''Saved: shcblock_pre.bin'']\<rparr>)
   \<and> fs (resume_window\<lparr>sys_log := [''Saved: shcblock_pre.bin'']\<rparr>) = resume_dir
   \<and> on_complete on_complete_a9_teth_get_shc_pre False resume_window
     = Ok (False, resume_window)"
proof -
  have n: "root_dir (state resume_window) = Some ''/proj''" "fs resume_window = resume_dir"
    "sys_log resume_window = []"
    by (simp_all add: resume_window_def MainWindow_def load_steps_def step_table_def
        set_steps_def update_step_buttons_state_def Step_def StepButton_def Let_def)
  have p: "path_exists (fs resume_window) ''shcblock_pre.bin''"
    by (simp add: n resume_dir_def path_exists_def lookup_def)
  from artifact_resolver_idempotent [OF n(1) _ p, of on_complete_a9_teth_get_shc_pre]
  show ?thesis by (simp add: n)
qed

subsection \<open>Persistence of the project state\<close>

text \<open>
  C6, as the code has it: for a project state \<open>x\<close> with \<open>root_dir\<close> set whose \<open>ipsw\<close> and
  \<open>blob\<close> are each unset or a non-empty string, in a directory where \<^verbatim>\<open>project.json\<close>
  is not a directory, \<^verbatim>\<open>save\<close> succeeds and \<^verbatim>\<open>load\<close> of the same directory, into any
  project state, gives back \<open>x\<close>: \<open>ipsw\<close>, \<open>blob\<close>, \<open>gen\<close> and \<open>chip\<close> are reproduced,
  \<^verbatim>\<open>None\<close> included.
\<close>

theorem save_load_round_trip:
  assumes "root_dir x = Some d"
    and "ipsw x \<noteq> Some []" and "blob x \<noteq> Some []"
    and "\<not> node_is_dir (lookup f ''project.json'')"
  shows "\<exists>f'. save x f = Inr f' \<and> load d y f' = Inr (x, f')"
proof -
  have ti: "(if truthy (ipsw x) then ipsw x else None) = ipsw x"
    using assms(2) by (cases "ipsw x") auto
  have tb: "(if truthy (blob x) then blob x else None) = blob x"
    using assms(3) by (cases "blob x") auto
  let ?doc = "JsonDoc [(''ipsw'', ipsw x), (''blob'', blob x), (''gen'', gen x),
                       (''chip'', chip x)]"
  let ?f' = "f\<lparr>entries := AList.update ''project.json'' (File (clock f) ?doc) (entries f),
                clock := Suc (clock f)\<rparr>"
  have s: "save x f = Inr ?f'"
    using assms(1,4)
    by (auto simp: save_def write_text_def ti tb split: option.splits node.splits)
  have "load d y ?f' = Inr (x, ?f')"
    using assms(1)
    by (simp add: load_def lookup_update_entries dict_get_def dict_get_default_def)
  with s show ?thesis by blast
qed

text \<open>
  Witness: a state with a firmware image and no blob, saved into an empty directory
  and loaded into a fresh \<^verbatim>\<open>ProjectState\<close>.
\<close>

theorem save_load_round_trip_witness:
  "\<exists>f'. save (ProjectState\<lparr>root_dir := Some ''/proj'', ipsw := Some ''/fw/a.ipsw''\<rparr>)
            empty_dir = Inr f'
      \<and> load ''/proj'' ProjectState f'
          = Inr (ProjectState\<lparr>root_dir := Some ''/proj'', ipsw := Some ''/fw/a.ipsw''\<rparr>, f')"
  by (rule save_load_round_trip)
    (simp_all add: ProjectState_def empty_dir_def lookup_def)

text \<open>
  Counterexample to C6 as stated: \<^verbatim>\<open>save\<close> writes \<^verbatim>\<open>str(self.ipsw) if self.ipsw else
  None\<close>, so an \<open>ipsw\<close> that is the empty string is saved as \<^verbatim>\<open>null\<close> and loaded as
  \<^verbatim>\<open>None\<close>.
\<close>

theorem save_load_empty_string_counterexample:
  "save (ProjectState\<lparr>root_dir := Some ''/proj'', ipsw := Some []\<rparr>) empty_dir
     = Inr \<lparr>entries = [(''project.json'',
                         File 0 (JsonDoc [(''ipsw'', None), (''blob'', None),
                                          (''gen'', None), (''chip'', Some ''A9'')]))],
            clock = 1\<rparr>
   \<and> load ''/proj'' (ProjectState\<lparr>root_dir := Some ''/proj'', ipsw := Some []\<rparr>)
       \<lparr>entries = [(''project.json'',
                     File 0 (JsonDoc [(''ipsw'', None), (''blob'', None),
                                      (''gen'', None), (''chip'', Some ''A9'')]))],
        clock = 1\<rparr>
     = Inr (ProjectState\<lparr>root_dir := Some ''/proj'', ipsw := None\<rparr>,
            \<lparr>entries = [(''project.json'',
                          File 0 (JsonDoc [(''ipsw'', None), (''blob'', None),
                                           (''gen'', None), (''chip'', Some ''A9'')]))],
             clock = 1\<rparr>)"
  by (simp add: save_def load_def write_text_def lookup_def ProjectState_def empty_dir_def
      dict_get_def dict_get_default_def)

subsection \<open>Flattening after a chain\<close>





subsection \<open>Generator extraction\<close>




end
